theory Spec2Isabelle
  imports Main
begin

section \<open>kafka-health: a replication probe for a Kafka cluster\<close>

text \<open>
  The program is the single function \<open>main\<close> of \<^verbatim>\<open>main.go\<close>: it parses four
  flags, connects a sarama client, settles the list of topics, and walks every partition
  of every topic, leaving the process through \<^verbatim>\<open>log.Fatal\<close> at the first partition
  that is not replicated as required.

  The embedding makes the effects of \<open>main\<close> explicit. A run yields the list of events
  it produced, in order (calls to the logger, queries sent to the client, the deferred
  \<^verbatim>\<open>client.Close()\<close>), and the exit status of the process.
\<close>

subsection \<open>Values and rendering\<close>

text \<open>A Go \<^verbatim>\<open>error\<close> is identified with the text its \<^verbatim>\<open>Error()\<close> method returns.\<close>

type_synonym error = string

text \<open>
  The values handed to the logger, as fields or as arguments: strings, integers
  (\<^verbatim>\<open>int32\<close> partition numbers and \<^verbatim>\<open>int\<close> lengths; they are only compared and
  printed, never computed with), slices of both, and errors.
\<close>

datatype val =
    VStr string
  | VInt int
  | VInts "int list"
  | VStrs "string list"
  | VErr error

text \<open>Decimal rendering, \<^verbatim>\<open>%d\<close>.\<close>

fun digits :: "nat \<Rightarrow> string" where
  "digits n =
     (if n < 10 then [''0123456789'' ! n]
      else digits (n div 10) @ [''0123456789'' ! (n mod 10)])"

declare digits.simps [simp del]

definition itoa :: "int \<Rightarrow> string" where
  "itoa i = (if i < 0 then CHR ''-'' # digits (nat (- i)) else digits (nat i))"

fun join_space :: "string list \<Rightarrow> string" where
  "join_space [] = []"
| "join_space [s] = s"
| "join_space (s # t # ss) = s @ '' '' @ join_space (t # ss)"

text \<open>The default format \<^verbatim>\<open>%v\<close> of a value; a slice prints as \<^verbatim>\<open>[a b c]\<close>.\<close>

fun show_val :: "val \<Rightarrow> string" where
  "show_val (VStr s) = s"
| "show_val (VInt i) = itoa i"
| "show_val (VInts xs) = ''['' @ join_space (map itoa xs) @ '']''"
| "show_val (VStrs xs) = ''['' @ join_space xs @ '']''"
| "show_val (VErr e) = e"

fun is_string :: "val \<Rightarrow> bool" where
  "is_string (VStr s) = True"
| "is_string v = False"

text \<open>
  \<^verbatim>\<open>fmt.Sprint\<close>: the operands in their default format, with a space between two
  operands when neither is a string.
\<close>

fun Sprint :: "val list \<Rightarrow> string" where
  "Sprint [] = []"
| "Sprint [v] = show_val v"
| "Sprint (v # w # vs) =
     show_val v @ (if \<not> is_string v \<and> \<not> is_string w then '' '' else []) @ Sprint (w # vs)"

text \<open>\<^verbatim>\<open>strings.Split(s, ",")\<close>: one piece more than there are separators.\<close>

fun Split :: "string \<Rightarrow> char \<Rightarrow> string list" where
  "Split [] sep = [[]]"
| "Split (c # cs) sep =
     (if c = sep then [] # Split cs sep
      else (case Split cs sep of
              [] \<Rightarrow> [[c]]
            | w # ws \<Rightarrow> (c # w) # ws))"

subsection \<open>The logger (logrus)\<close>

text \<open>
  \<open>main\<close> logs through \<^verbatim>\<open>github.com/sirupsen/logrus\<close>, an external library whose
  source is not among the repository's files. Its levels, \<^verbatim>\<open>Level.String\<close> and
  \<^verbatim>\<open>ParseLevel\<close> are written here as the library defines them; \<^verbatim>\<open>README.md\<close>
  shows the resulting usage line \<^verbatim>\<open>-logLevel="warning"\<close>. Flag values are ASCII
  strings, on which \<^verbatim>\<open>strings.ToLower\<close> maps \<^verbatim>\<open>A-Z\<close> to \<^verbatim>\<open>a-z\<close>.
  Later releases of the library add a seventh level, trace, after debug; no property
  below depends on its absence. \<^verbatim>\<open>Fatal\<close> and \<^verbatim>\<open>Fatalf\<close> log at the fatal
  level and then call \<^verbatim>\<open>os.Exit(1)\<close>.
\<close>

datatype Level = PanicLevel | FatalLevel | ErrorLevel | WarnLevel | InfoLevel | DebugLevel

fun Level_String :: "Level \<Rightarrow> string" where
  "Level_String DebugLevel = ''debug''"
| "Level_String InfoLevel = ''info''"
| "Level_String WarnLevel = ''warning''"
| "Level_String ErrorLevel = ''error''"
| "Level_String FatalLevel = ''fatal''"
| "Level_String PanicLevel = ''panic''"

definition ToLower_char :: "char \<Rightarrow> char" where
  "ToLower_char c =
     (let n = (of_char c :: nat) in if 65 \<le> n \<and> n \<le> 90 then char_of (n + 32) else c)"

definition ToLower :: "string \<Rightarrow> string" where
  "ToLower s = map ToLower_char s"

text \<open>The error \<^verbatim>\<open>ParseLevel\<close> returns is dropped by \<open>main\<close>; \<open>None\<close> stands for it.\<close>

definition ParseLevel :: "string \<Rightarrow> Level option" where
  "ParseLevel lvl =
     (let l = ToLower lvl in
      if l = ''panic'' then Some PanicLevel
      else if l = ''fatal'' then Some FatalLevel
      else if l = ''error'' then Some ErrorLevel
      else if l = ''warn'' \<or> l = ''warning'' then Some WarnLevel
      else if l = ''info'' then Some InfoLevel
      else if l = ''debug'' then Some DebugLevel
      else None)"

text \<open>The numeric order of the levels: a line is written when its level is enabled.\<close>

fun level_rank :: "Level \<Rightarrow> nat" where
  "level_rank PanicLevel = 0"
| "level_rank FatalLevel = 1"
| "level_rank ErrorLevel = 2"
| "level_rank WarnLevel = 3"
| "level_rank InfoLevel = 4"
| "level_rank DebugLevel = 5"

subsection \<open>Flags, client and events\<close>

text \<open>The four flags of \<^verbatim>\<open>main.go\<close>, lines 13 to 16, and their defaults.\<close>

record flags =
  logLevel :: string
  broker :: string
  topics :: string
  replicaLevel :: int

definition default_flags :: flags where
  "default_flags =
     \<lparr> logLevel = Level_String WarnLevel,
       broker = ''localhost:9092'',
       topics = '''',
       replicaLevel = 2 \<rparr>"

definition version :: string where
  "version = ''no version set''"

text \<open>
  The sarama client, as far as \<open>main\<close> uses it: the three metadata queries, each
  answering with an error or a list.
\<close>

record client =
  Topics :: "error + string list"
  Partitions :: "string \<Rightarrow> error + int list"
  Replicas :: "string \<Rightarrow> int \<Rightarrow> error + int list"

text \<open>
  What a run does, in order. A \<open>Log\<close> event is a call to the logger with its level,
  its fields (in the order of the source's literal) and its message.
\<close>

datatype event =
    SetLevel Level
  | Log Level "(string \<times> val) list" string
  | QueryTopics
  | QueryPartitions string
  | QueryReplicas string int
  | Close

text \<open>The lines that reach standard output under a logger level.\<close>

fun written :: "Level \<Rightarrow> event list \<Rightarrow> event list" where
  "written l [] = []"
| "written l (Log k fs m # es) =
     (if level_rank k \<le> level_rank l then Log k fs m # written l es else written l es)"
| "written l (e # es) = written l es"

subsection \<open>The program\<close>

text \<open>
  The body of the inner loop, lines 83 to 99, for one partition: the events it produces,
  and \<open>Some 1\<close> when it leaves the process through \<^verbatim>\<open>Fatal\<close> (which logs and calls
  \<^verbatim>\<open>os.Exit(1)\<close>), \<open>None\<close> when the loop goes on.
\<close>

definition main_partition :: "client \<Rightarrow> int \<Rightarrow> string \<Rightarrow> int \<Rightarrow> event list \<times> int option" where
  "main_partition c lvl topic pid =
     (case Replicas c topic pid of
        Inl err \<Rightarrow>
          ([QueryReplicas topic pid,
            Log FatalLevel [(''topic'', VStr topic), (''partition'', VInt pid)]
              ''Error listing partitions''],
           Some 1)
      | Inr replicas \<Rightarrow>
          (let found = Log DebugLevel []
                 (Sprint [VStr ''found topic'', VStr ''topic'', VStr topic,
                          VStr ''partition'', VInt pid,
                          VStr ''replica'', VInts replicas])
           in if lvl > 0 \<and> int (length replicas) \<noteq> lvl
              then ([QueryReplicas topic pid, found,
                     Log FatalLevel [(''topic'', VStr topic), (''partition'', VInt pid)]
                       (''topics '' @ topic @ '':'' @ itoa pid @ '' is not fully replicated'')],
                    Some 1)
              else ([QueryReplicas topic pid, found], None)))"

text \<open>The inner loop, lines 82 to 100.\<close>

fun main_partitions :: "client \<Rightarrow> int \<Rightarrow> string \<Rightarrow> int list \<Rightarrow> event list \<times> int option" where
  "main_partitions c lvl topic [] = ([], None)"
| "main_partitions c lvl topic (p # ps) =
     (case main_partition c lvl topic p of
        (evs, Some code) \<Rightarrow> (evs, Some code)
      | (evs, None) \<Rightarrow>
          (case main_partitions c lvl topic ps of (evs', r) \<Rightarrow> (evs @ evs', r)))"

declare main_partitions.simps(2) [simp del]

text \<open>The body of the outer loop, lines 74 to 100, for one topic.\<close>

definition main_topic :: "client \<Rightarrow> int \<Rightarrow> string \<Rightarrow> event list \<times> int option" where
  "main_topic c lvl topic =
     (case Partitions c topic of
        Inl err \<Rightarrow>
          ([QueryPartitions topic,
            Log FatalLevel [(''err'', VErr err), (''topic'', VStr topic)]
              ''Error Listing Partitions''],
           Some 1)
      | Inr partitions \<Rightarrow>
          (case main_partitions c lvl topic partitions of
             (evs, r) \<Rightarrow> (QueryPartitions topic # evs, r)))"

text \<open>The outer loop, lines 73 to 101.\<close>

fun main_topics :: "client \<Rightarrow> int \<Rightarrow> string list \<Rightarrow> event list \<times> int option" where
  "main_topics c lvl [] = ([], None)"
| "main_topics c lvl (t # ts) =
     (case main_topic c lvl t of
        (evs, Some code) \<Rightarrow> (evs, Some code)
      | (evs, None) \<Rightarrow>
          (case main_topics c lvl ts of (evs', r) \<Rightarrow> (evs @ evs', r)))"

declare main_topics.simps(2) [simp del]

text \<open>
  Lines 57 to 64: the list of topics to check. \<open>Inl 1\<close> is the exit through
  \<^verbatim>\<open>Fatal\<close>.
\<close>

definition main_topicsList :: "client \<Rightarrow> string list \<Rightarrow> event list \<times> (int + string list)" where
  "main_topicsList c topicsList =
     (if length topicsList = 1 \<and> topicsList ! 0 = ''''
      then (case Topics c of
              Inl err \<Rightarrow>
                ([QueryTopics, Log FatalLevel [(''err'', VErr err)] ''Error Listing Topics''],
                 Inl 1)
            | Inr ts \<Rightarrow> ([QueryTopics], Inr ts))
      else ([], Inr topicsList))"

text \<open>Lines 26 to 29: an unknown level name falls back to the warn level.\<close>

definition main_logLevel :: "flags \<Rightarrow> Level" where
  "main_logLevel fl = (case ParseLevel (logLevel fl) of None \<Rightarrow> WarnLevel | Some l \<Rightarrow> l)"

text \<open>
  The whole of \<open>main\<close>, given \<^verbatim>\<open>sarama.NewClient\<close> as the function from the list of
  brokers to an error or a client. The deferred \<^verbatim>\<open>client.Close()\<close> runs when
  \<open>main\<close> returns; \<^verbatim>\<open>os.Exit\<close> ends the process at once and runs no deferred call.
\<close>

definition main :: "(string list \<Rightarrow> error + client) \<Rightarrow> flags \<Rightarrow> event list \<times> int" where
  "main NewClient fl =
     (let start = [SetLevel (main_logLevel fl),
                   Log InfoLevel [(''version'', VStr version), (''brokers'', VStr (broker fl))]
                     ''starting app''];
          brokersList = Split (broker fl) CHR '','';
          topicsList = Split (topics fl) CHR '',''
      in case NewClient brokersList of
           Inl err \<Rightarrow>
             (start @ [Log FatalLevel [] (''Failed to start sarama client: '' @ err)], 1)
         | Inr c \<Rightarrow>
             (case main_topicsList c topicsList of
                (evs, Inl code) \<Rightarrow> (start @ evs, code)
              | (evs, Inr resolved) \<Rightarrow>
                  (let generated = Log DebugLevel
                         [(''topics'', VStrs resolved), (''len'', VInt (int (length resolved)))]
                         ''topic list generated''
                   in case main_topics c (replicaLevel fl) resolved of
                        (evs', Some code) \<Rightarrow> (start @ evs @ [generated] @ evs', code)
                      | (evs', None) \<Rightarrow> (start @ evs @ [generated] @ evs' @ [Close], 0))))"

text \<open>The queries among the events of a run.\<close>

fun is_query :: "event \<Rightarrow> bool" where
  "is_query QueryTopics = True"
| "is_query (QueryPartitions t) = True"
| "is_query (QueryReplicas t p) = True"
| "is_query e = False"

subsection \<open>The specification's evaluator\<close>

text \<open>
  The specification describes the same run as two components returning values: a resolver
  of the topic list, and an evaluator that returns a verdict. They are written here from
  the specification's words, to be compared with \<open>main\<close>. The replication level of the
  specification is a non-negative integer.
\<close>

datatype cause =
    MetadataError error "string option" "int option"

datatype verdict =
    Healthy
  | Unhealthy string int nat nat
  | EvaluationError cause

fun spec_partitions :: "client \<Rightarrow> nat \<Rightarrow> string \<Rightarrow> int list \<Rightarrow> verdict" where
  "spec_partitions c lvl t [] = Healthy"
| "spec_partitions c lvl t (p # ps) =
     (case Replicas c t p of
        Inl e \<Rightarrow> EvaluationError (MetadataError e (Some t) (Some p))
      | Inr R \<Rightarrow>
          if lvl = 0 then spec_partitions c lvl t ps
          else if length R = lvl then spec_partitions c lvl t ps
          else Unhealthy t p lvl (length R))"

fun spec_evaluate :: "client \<Rightarrow> nat \<Rightarrow> string list \<Rightarrow> verdict" where
  "spec_evaluate c lvl [] = Healthy"
| "spec_evaluate c lvl (t # ts) =
     (case Partitions c t of
        Inl e \<Rightarrow> EvaluationError (MetadataError e (Some t) None)
      | Inr ps \<Rightarrow>
          (case spec_partitions c lvl t ps of
             Healthy \<Rightarrow> spec_evaluate c lvl ts
           | v \<Rightarrow> v))"

definition spec_resolve :: "client \<Rightarrow> string list \<Rightarrow> error + string list" where
  "spec_resolve c requested = (if requested = [''''] then Topics c else Inr requested)"

definition spec_run :: "client \<Rightarrow> nat \<Rightarrow> string list \<Rightarrow> verdict" where
  "spec_run c lvl requested =
     (case spec_resolve c requested of
        Inl e \<Rightarrow> EvaluationError (MetadataError e None None)
      | Inr ts \<Rightarrow> spec_evaluate c lvl ts)"

subsection \<open>Clusters used as examples\<close>

text \<open>
  The scenario of the specification: topic \<open>orders\<close> has partition 0 on three brokers
  and partition 1 on two; topics \<open>a\<close> and \<open>b\<close> have one partition on one broker.
\<close>

definition orders_client :: client where
  "orders_client =
     \<lparr> Topics = Inr [''a'', ''b''],
       Partitions = (\<lambda>t. if t = ''orders'' then Inr [0, 1]
                          else if t = ''a'' \<or> t = ''b'' then Inr [0]
                          else Inl ''unknown topic or partition''),
       Replicas = (\<lambda>t p. if t = ''orders'' \<and> p = 0 then Inr [1, 2, 3]
                          else if t = ''orders'' \<and> p = 1 then Inr [1, 2]
                          else if (t = ''a'' \<or> t = ''b'') \<and> p = 0 then Inr [1]
                          else Inl ''unknown topic or partition'') \<rparr>"

text \<open>The same topic on a larger cluster: partition 0 on five brokers, partition 1 on four.\<close>

definition wide_client :: client where
  "wide_client =
     \<lparr> Topics = Inr [''orders''],
       Partitions = (\<lambda>t. if t = ''orders'' then Inr [0, 1]
                          else Inl ''unknown topic or partition''),
       Replicas = (\<lambda>t p. if t = ''orders'' \<and> p = 0 then Inr [1, 2, 3, 4, 5]
                          else if t = ''orders'' \<and> p = 1 then Inr [1, 2, 3, 4]
                          else Inl ''unknown topic or partition'') \<rparr>"

text \<open>A cluster that lists topics and partitions and fails every replica query with \<open>e\<close>.\<close>

definition no_replicas_client :: "error \<Rightarrow> client" where
  "no_replicas_client e =
     \<lparr> Topics = Inr [''orders''],
       Partitions = (\<lambda>t. Inr [0]),
       Replicas = (\<lambda>t p. Inl e) \<rparr>"

text \<open>A cluster whose metadata cannot be read at all.\<close>

definition down_client :: client where
  "down_client =
     \<lparr> Topics = Inl ''EOF'',
       Partitions = (\<lambda>t. Inl ''EOF''),
       Replicas = (\<lambda>t p. Inl ''EOF'') \<rparr>"

definition orders_flags :: "int \<Rightarrow> flags" where
  "orders_flags lvl = default_flags\<lparr>topics := ''orders'', replicaLevel := lvl\<rparr>"

text \<open>A \<^verbatim>\<open>NewClient\<close> that connects, to the cluster \<open>c\<close>, whatever the brokers.\<close>

definition connected :: "client \<Rightarrow> string list \<Rightarrow> error + client" where
  "connected c brokersList = Inr c"

section \<open>Properties of the evaluation loops\<close>

subsection \<open>How the loops end\<close>

lemma main_partition_status:
  "snd (main_partition c lvl t p) = None \<or> snd (main_partition c lvl t p) = Some 1"
  by (simp add: main_partition_def Let_def split: sum.splits)

lemma main_partition_None_iff:
  "snd (main_partition c lvl t p) = None \<longleftrightarrow>
     (\<exists>R. Replicas c t p = Inr R \<and> \<not> (0 < lvl \<and> int (length R) \<noteq> lvl))"
  by (auto simp add: main_partition_def Let_def split: sum.splits)

lemma main_partition_queries:
  "filter is_query (fst (main_partition c lvl t p)) = [QueryReplicas t p]"
  by (simp add: main_partition_def Let_def split: sum.splits)

lemma main_partitions_Cons_pass:
  "snd (main_partition c lvl t p) = None \<Longrightarrow>
   main_partitions c lvl t (p # ps) =
     (fst (main_partition c lvl t p) @ fst (main_partitions c lvl t ps),
      snd (main_partitions c lvl t ps))"
  by (cases "main_partition c lvl t p") (simp add: main_partitions.simps(2) split: prod.splits)

lemma main_partitions_Cons_stop:
  "snd (main_partition c lvl t p) = Some code \<Longrightarrow>
   main_partitions c lvl t (p # ps) = (fst (main_partition c lvl t p), Some code)"
  by (cases "main_partition c lvl t p") (simp add: main_partitions.simps(2))

lemma main_partitions_status:
  "snd (main_partitions c lvl t ps) = None \<or> snd (main_partitions c lvl t ps) = Some 1"
proof (induction ps)
  case Nil
  show ?case by simp
next
  case (Cons p ps)
  from main_partition_status [of c lvl t p] show ?case
  proof
    assume "snd (main_partition c lvl t p) = None"
    with Cons show ?thesis by (simp add: main_partitions_Cons_pass)
  next
    assume "snd (main_partition c lvl t p) = Some 1"
    then show ?thesis by (simp add: main_partitions_Cons_stop)
  qed
qed

lemma main_partitions_None_iff:
  "snd (main_partitions c lvl t ps) = None \<longleftrightarrow>
     (\<forall>p \<in> set ps. snd (main_partition c lvl t p) = None)"
proof (induction ps)
  case Nil
  show ?case by simp
next
  case (Cons p ps)
  from main_partition_status [of c lvl t p] show ?case
  proof
    assume "snd (main_partition c lvl t p) = None"
    with Cons show ?thesis by (simp add: main_partitions_Cons_pass)
  next
    assume "snd (main_partition c lvl t p) = Some 1"
    then show ?thesis by (simp add: main_partitions_Cons_stop)
  qed
qed

lemma main_partitions_append_stop:
  assumes "\<forall>q \<in> set ps1. snd (main_partition c lvl t q) = None"
    and "snd (main_partition c lvl t p) = Some code"
  shows "main_partitions c lvl t (ps1 @ p # ps2) =
           (concat (map (\<lambda>q. fst (main_partition c lvl t q)) ps1) @ fst (main_partition c lvl t p),
            Some code)"
  using assms
proof (induction ps1)
  case Nil
  then show ?case by (simp add: main_partitions_Cons_stop)
next
  case (Cons q ps1)
  then show ?case by (simp add: main_partitions_Cons_pass)
qed

lemma main_topic_Inr:
  "Partitions c t = Inr ps \<Longrightarrow>
   main_topic c lvl t =
     (QueryPartitions t # fst (main_partitions c lvl t ps), snd (main_partitions c lvl t ps))"
  by (simp add: main_topic_def split: prod.splits)

lemma main_topic_Inl:
  "Partitions c t = Inl e \<Longrightarrow>
   main_topic c lvl t =
     ([QueryPartitions t,
       Log FatalLevel [(''err'', VErr e), (''topic'', VStr t)] ''Error Listing Partitions''],
      Some 1)"
  by (simp add: main_topic_def)

lemma main_topic_status:
  "snd (main_topic c lvl t) = None \<or> snd (main_topic c lvl t) = Some 1"
proof (cases "Partitions c t")
  case (Inl e)
  then show ?thesis by (simp add: main_topic_Inl)
next
  case (Inr ps)
  with main_partitions_status [of c lvl t ps] show ?thesis by (simp add: main_topic_Inr)
qed

lemma main_topic_None_iff:
  "snd (main_topic c lvl t) = None \<longleftrightarrow>
     (\<exists>ps. Partitions c t = Inr ps \<and> snd (main_partitions c lvl t ps) = None)"
  by (cases "Partitions c t") (simp_all add: main_topic_Inl main_topic_Inr)

lemma main_topics_Cons_pass:
  "snd (main_topic c lvl t) = None \<Longrightarrow>
   main_topics c lvl (t # ts) =
     (fst (main_topic c lvl t) @ fst (main_topics c lvl ts), snd (main_topics c lvl ts))"
  by (cases "main_topic c lvl t") (simp add: main_topics.simps(2) split: prod.splits)

lemma main_topics_Cons_stop:
  "snd (main_topic c lvl t) = Some code \<Longrightarrow>
   main_topics c lvl (t # ts) = (fst (main_topic c lvl t), Some code)"
  by (cases "main_topic c lvl t") (simp add: main_topics.simps(2))

lemma main_topics_status:
  "snd (main_topics c lvl ts) = None \<or> snd (main_topics c lvl ts) = Some 1"
proof (induction ts)
  case Nil
  show ?case by simp
next
  case (Cons t ts)
  from main_topic_status [of c lvl t] show ?case
  proof
    assume "snd (main_topic c lvl t) = None"
    with Cons show ?thesis by (simp add: main_topics_Cons_pass)
  next
    assume "snd (main_topic c lvl t) = Some 1"
    then show ?thesis by (simp add: main_topics_Cons_stop)
  qed
qed

lemma main_topics_None_iff:
  "snd (main_topics c lvl ts) = None \<longleftrightarrow> (\<forall>t \<in> set ts. snd (main_topic c lvl t) = None)"
proof (induction ts)
  case Nil
  show ?case by simp
next
  case (Cons t ts)
  from main_topic_status [of c lvl t] show ?case
  proof
    assume "snd (main_topic c lvl t) = None"
    with Cons show ?thesis by (simp add: main_topics_Cons_pass)
  next
    assume "snd (main_topic c lvl t) = Some 1"
    then show ?thesis by (simp add: main_topics_Cons_stop)
  qed
qed

text \<open>Rendering of the small numbers that occur in the examples.\<close>

lemma itoa_small: "itoa 0 = ''0''" "itoa 1 = ''1''" "itoa 2 = ''2''" "itoa 3 = ''3''"
  "itoa 4 = ''4''" "itoa 5 = ''5''"
  by code_simp+

subsection \<open>The replication policy\<close>

text \<open>
  C1. With a positive \<open>replicaLevel\<close>, a partition whose replica query answers with
  \<open>R\<close> passes exactly when \<open>R\<close> has \<open>replicaLevel\<close> elements: then the loop goes on
  with the remaining partitions. With any other size, smaller or larger, the loop ends
  there, with the fatal line "not fully replicated" and exit status 1.
\<close>

theorem replication_strict_equality:
  assumes "0 < lvl" and "Replicas c t p = Inr R"
  shows "(snd (main_partition c lvl t p) = None \<longleftrightarrow> int (length R) = lvl) \<and>
         main_partitions c lvl t (p # ps) =
           (if int (length R) = lvl
            then (fst (main_partition c lvl t p) @ fst (main_partitions c lvl t ps),
                  snd (main_partitions c lvl t ps))
            else ([QueryReplicas t p,
                   Log DebugLevel []
                     (Sprint [VStr ''found topic'', VStr ''topic'', VStr t,
                              VStr ''partition'', VInt p, VStr ''replica'', VInts R]),
                   Log FatalLevel [(''topic'', VStr t), (''partition'', VInt p)]
                     (''topics '' @ t @ '':'' @ itoa p @ '' is not fully replicated'')],
                  Some 1))"
proof (cases "int (length R) = lvl")
  case True
  with assms have pass: "snd (main_partition c lvl t p) = None"
    by (simp add: main_partition_def)
  with True show ?thesis by (simp add: main_partitions_Cons_pass)
next
  case False
  with assms have stop: "main_partition c lvl t p =
      ([QueryReplicas t p,
        Log DebugLevel []
          (Sprint [VStr ''found topic'', VStr ''topic'', VStr t,
                   VStr ''partition'', VInt p, VStr ''replica'', VInts R]),
        Log FatalLevel [(''topic'', VStr t), (''partition'', VInt p)]
          (''topics '' @ t @ '':'' @ itoa p @ '' is not fully replicated'')],
       Some 1)"
    by (simp add: main_partition_def)
  then have "snd (main_partition c lvl t p) = Some 1" by simp
  from main_partitions_Cons_stop [OF this, of ps] stop False show ?thesis by simp
qed

theorem replication_strict_equality_witness:
  "(snd (main_partition orders_client 3 ''orders'' 1) = None \<longleftrightarrow>
      int (length [1, 2 :: int]) = 3) \<and>
   main_partitions orders_client 3 ''orders'' [1] =
     ([QueryReplicas ''orders'' 1,
       Log DebugLevel [] ''found topictopicorderspartition1replica[1 2]'',
       Log FatalLevel [(''topic'', VStr ''orders''), (''partition'', VInt 1)]
         ''topics orders:1 is not fully replicated''],
      Some 1)"
proof -
  have lvl: "(0::int) < 3" by simp
  have q: "Replicas orders_client ''orders'' 1 = Inr [1, 2]"
    by (simp add: orders_client_def)
  show ?thesis
    using replication_strict_equality [OF lvl q, of "[]"] by (simp add: itoa_small)
qed

text \<open>
  C3. With \<open>replicaLevel = 0\<close>, a partition whose replica query answers passes whatever
  the size of the answer: the iteration logs its debug line and the loop goes on.
\<close>

theorem level_zero_existence_only:
  assumes "Replicas c t p = Inr R"
  shows "main_partition c 0 t p =
           ([QueryReplicas t p,
             Log DebugLevel []
               (Sprint [VStr ''found topic'', VStr ''topic'', VStr t,
                        VStr ''partition'', VInt p, VStr ''replica'', VInts R])],
            None) \<and>
         main_partitions c 0 t (p # ps) =
           (fst (main_partition c 0 t p) @ fst (main_partitions c 0 t ps),
            snd (main_partitions c 0 t ps))"
proof -
  from assms have one: "main_partition c 0 t p =
      ([QueryReplicas t p,
        Log DebugLevel []
          (Sprint [VStr ''found topic'', VStr ''topic'', VStr t,
                   VStr ''partition'', VInt p, VStr ''replica'', VInts R])],
       None)"
    by (simp add: main_partition_def)
  then have "snd (main_partition c 0 t p) = None" by simp
  from main_partitions_Cons_pass [OF this, of ps] one show ?thesis by simp
qed

theorem level_zero_existence_only_witness:
  "main_partition orders_client 0 ''orders'' 1 =
     ([QueryReplicas ''orders'' 1,
       Log DebugLevel [] ''found topictopicorderspartition1replica[1 2]''],
      None) \<and>
   main_partitions orders_client 0 ''orders'' [1] =
     ([QueryReplicas ''orders'' 1,
       Log DebugLevel [] ''found topictopicorderspartition1replica[1 2]''],
      None)"
proof -
  have q: "Replicas orders_client ''orders'' 1 = Inr [1, 2]"
    by (simp add: orders_client_def)
  show ?thesis
    using level_zero_existence_only [OF q, of "[]"] by (simp add: itoa_small)
qed

subsection \<open>The list of topics\<close>

lemma main_topicsList_sentinel:
  "(length requested = 1 \<and> requested ! 0 = '''') \<longleftrightarrow> requested = ['''']"
  by (cases requested) auto

text \<open>
  C4. The list of requested topics is taken as it is, without a query, for every list other
  than the list of one empty name. For that list alone the client is asked for all topics:
  its answer is the list to check, and its failure ends the run through the fatal line
  "Error Listing Topics", which carries the error, and exit status 1.
\<close>

theorem topics_list_resolution:
  "(requested \<noteq> [''''] \<longrightarrow> main_topicsList c requested = ([], Inr requested)) \<and>
   (\<forall>ts. Topics c = Inr ts \<longrightarrow> main_topicsList c [''''] = ([QueryTopics], Inr ts)) \<and>
   (\<forall>e. Topics c = Inl e \<longrightarrow>
      main_topicsList c [''''] =
        ([QueryTopics, Log FatalLevel [(''err'', VErr e)] ''Error Listing Topics''], Inl 1))"
proof (intro conjI impI allI)
  assume "requested \<noteq> ['''']"
  then have "\<not> (length requested = 1 \<and> requested ! 0 = '''')"
    by (simp only: main_topicsList_sentinel) simp
  then show "main_topicsList c requested = ([], Inr requested)"
    unfolding main_topicsList_def by (rule if_not_P)
next
  fix ts assume "Topics c = Inr ts"
  then show "main_topicsList c [''''] = ([QueryTopics], Inr ts)"
    by (simp add: main_topicsList_def)
next
  fix e assume "Topics c = Inl e"
  then show "main_topicsList c [''''] =
      ([QueryTopics, Log FatalLevel [(''err'', VErr e)] ''Error Listing Topics''], Inl 1)"
    by (simp add: main_topicsList_def)
qed

theorem topics_list_resolution_witness:
  "main_topicsList orders_client [''orders'', ''missing''] = ([], Inr [''orders'', ''missing'']) \<and>
   main_topicsList orders_client [''''] = ([QueryTopics], Inr [''a'', ''b'']) \<and>
   main_topicsList down_client [''''] =
     ([QueryTopics, Log FatalLevel [(''err'', VErr ''EOF'')] ''Error Listing Topics''], Inl 1)"
proof -
  have r: "[''orders'', ''missing''] \<noteq> ['''']" by simp
  have up: "Topics orders_client = Inr [''a'', ''b'']" by (simp add: orders_client_def)
  have down: "Topics down_client = Inl ''EOF''" by (simp add: down_client_def)
  from topics_list_resolution [of "[''orders'', ''missing'']" orders_client] r up
  have "main_topicsList orders_client [''orders'', ''missing''] = ([], Inr [''orders'', ''missing''])"
    and "main_topicsList orders_client [''''] = ([QueryTopics], Inr [''a'', ''b''])"
    by blast+
  moreover from topics_list_resolution [of "[]" down_client] down
  have "main_topicsList down_client [''''] =
     ([QueryTopics, Log FatalLevel [(''err'', VErr ''EOF'')] ''Error Listing Topics''], Inl 1)"
    by blast
  ultimately show ?thesis by simp
qed

subsection \<open>Stopping at the first failure\<close>

lemma main_partitions_prefix_queries:
  "filter is_query (concat (map (\<lambda>q. fst (main_partition c lvl t q)) ps)) =
     map (QueryReplicas t) ps"
  by (induction ps) (simp_all add: main_partition_queries)

text \<open>
  C2. Let \<open>p\<close> be the first partition of topic \<open>A\<close> that is not replicated as required,
  the partitions before it passing. The evaluation of the topics \<open>A # rest\<close> then ends at
  \<open>p\<close> with exit status 1. Its events are those of the partitions up to \<open>p\<close>; they
  depend neither on the later partitions \<open>ps2\<close> of \<open>A\<close> nor on the topics \<open>rest\<close>, and
  the only queries sent are the partition query for \<open>A\<close> and the replica queries for
  the partitions up to \<open>p\<close>.
\<close>

theorem short_circuit_first_failure:
  assumes "Partitions c A = Inr (ps1 @ p # ps2)"
    and "\<forall>q \<in> set ps1. \<exists>Q. Replicas c A q = Inr Q \<and> int (length Q) = lvl"
    and "Replicas c A p = Inr R"
    and "0 < lvl"
    and "int (length R) \<noteq> lvl"
  shows "main_topics c lvl (A # rest) =
           (QueryPartitions A #
            concat (map (\<lambda>q. fst (main_partition c lvl A q)) ps1) @
            [QueryReplicas A p,
             Log DebugLevel []
               (Sprint [VStr ''found topic'', VStr ''topic'', VStr A,
                        VStr ''partition'', VInt p, VStr ''replica'', VInts R]),
             Log FatalLevel [(''topic'', VStr A), (''partition'', VInt p)]
               (''topics '' @ A @ '':'' @ itoa p @ '' is not fully replicated'')],
            Some 1) \<and>
         filter is_query (fst (main_topics c lvl (A # rest))) =
           QueryPartitions A # map (QueryReplicas A) (ps1 @ [p])"
proof -
  have before: "\<forall>q \<in> set ps1. snd (main_partition c lvl A q) = None"
    using assms(2) by (auto simp add: main_partition_None_iff)
  have at_p: "main_partition c lvl A p =
      ([QueryReplicas A p,
        Log DebugLevel []
          (Sprint [VStr ''found topic'', VStr ''topic'', VStr A,
                   VStr ''partition'', VInt p, VStr ''replica'', VInts R]),
        Log FatalLevel [(''topic'', VStr A), (''partition'', VInt p)]
          (''topics '' @ A @ '':'' @ itoa p @ '' is not fully replicated'')],
       Some 1)"
    using assms(3-5) by (simp add: main_partition_def)
  then have "snd (main_partition c lvl A p) = Some 1" by simp
  from main_partitions_append_stop [OF before this, of ps2]
  have loop: "main_partitions c lvl A (ps1 @ p # ps2) =
      (concat (map (\<lambda>q. fst (main_partition c lvl A q)) ps1) @ fst (main_partition c lvl A p),
       Some 1)" .
  have topic: "main_topic c lvl A =
      (QueryPartitions A #
       concat (map (\<lambda>q. fst (main_partition c lvl A q)) ps1) @ fst (main_partition c lvl A p),
       Some 1)"
    by (simp add: main_topic_Inr [OF assms(1)] loop)
  then have "snd (main_topic c lvl A) = Some 1" by simp
  from main_topics_Cons_stop [OF this, of rest] topic
  have run: "main_topics c lvl (A # rest) =
      (QueryPartitions A #
       concat (map (\<lambda>q. fst (main_partition c lvl A q)) ps1) @ fst (main_partition c lvl A p),
       Some 1)"
    by simp
  have "filter is_query (fst (main_topics c lvl (A # rest))) =
      QueryPartitions A # map (QueryReplicas A) (ps1 @ [p])"
    by (simp add: run main_partitions_prefix_queries main_partition_queries)
  with run at_p show ?thesis by simp
qed

theorem short_circuit_first_failure_witness:
  "main_topics orders_client 3 [''orders'', ''a''] =
     ([QueryPartitions ''orders'',
       QueryReplicas ''orders'' 0,
       Log DebugLevel [] ''found topictopicorderspartition0replica[1 2 3]'',
       QueryReplicas ''orders'' 1,
       Log DebugLevel [] ''found topictopicorderspartition1replica[1 2]'',
       Log FatalLevel [(''topic'', VStr ''orders''), (''partition'', VInt 1)]
         ''topics orders:1 is not fully replicated''],
      Some 1) \<and>
   filter is_query (fst (main_topics orders_client 3 [''orders'', ''a''])) =
     [QueryPartitions ''orders'', QueryReplicas ''orders'' 0, QueryReplicas ''orders'' 1]"
proof -
  have ps: "Partitions orders_client ''orders'' = Inr ([0] @ 1 # [])"
    by (simp add: orders_client_def)
  have before: "\<forall>q \<in> set [0]. \<exists>Q. Replicas orders_client ''orders'' q = Inr Q \<and> int (length Q) = 3"
    by (simp add: orders_client_def)
  have at_p: "Replicas orders_client ''orders'' 1 = Inr [1, 2]"
    by (simp add: orders_client_def)
  have lvl: "(0::int) < 3" by simp
  have ne: "int (length [1, 2 :: int]) \<noteq> 3" by simp
  have first: "fst (main_partition orders_client 3 ''orders'' 0) =
      [QueryReplicas ''orders'' 0,
       Log DebugLevel [] ''found topictopicorderspartition0replica[1 2 3]'']"
    by (simp add: main_partition_def orders_client_def itoa_small)
  show ?thesis
    using short_circuit_first_failure [OF ps before at_p lvl ne, of "[''a'']"]
    by (simp add: first itoa_small)
qed

subsection \<open>Levels below one\<close>

lemma main_partition_nonpos:
  "lvl \<le> 0 \<Longrightarrow> main_partition c lvl t p = main_partition c 0 t p"
  by (simp add: main_partition_def split: sum.splits)

lemma main_partitions_nonpos:
  "lvl \<le> 0 \<Longrightarrow> main_partitions c lvl t ps = main_partitions c 0 t ps"
  by (induction ps) (simp_all add: main_partitions.simps(2) main_partition_nonpos [of lvl])

lemma main_topic_nonpos:
  "lvl \<le> 0 \<Longrightarrow> main_topic c lvl t = main_topic c 0 t"
  by (simp add: main_topic_def main_partitions_nonpos [of lvl] split: sum.splits)

lemma main_topics_nonpos:
  "lvl \<le> 0 \<Longrightarrow> main_topics c lvl ts = main_topics c 0 ts"
  by (induction ts) (simp_all add: main_topics.simps(2) main_topic_nonpos [of lvl])

lemma main_partition_nonpos_quiet:
  "lvl \<le> 0 \<Longrightarrow> Log FatalLevel fs (''topics '' @ m) \<notin> set (fst (main_partition c lvl t p))"
  by (simp add: main_partition_def Let_def split: sum.splits)

lemma main_partitions_nonpos_quiet:
  assumes "lvl \<le> 0"
  shows "Log FatalLevel fs (''topics '' @ m) \<notin> set (fst (main_partitions c lvl t ps))"
proof (induction ps)
  case Nil
  show ?case by simp
next
  case (Cons p ps)
  note one = main_partition_nonpos_quiet [OF assms, of fs m c t p]
  from main_partition_status [of c lvl t p] show ?case
  proof
    assume "snd (main_partition c lvl t p) = None"
    with Cons one show ?thesis by (simp add: main_partitions_Cons_pass)
  next
    assume "snd (main_partition c lvl t p) = Some 1"
    with one show ?thesis by (simp add: main_partitions_Cons_stop)
  qed
qed

lemma main_topic_nonpos_quiet:
  assumes "lvl \<le> 0"
  shows "Log FatalLevel fs (''topics '' @ m) \<notin> set (fst (main_topic c lvl t))"
proof (cases "Partitions c t")
  case (Inl e)
  then show ?thesis by (simp add: main_topic_Inl)
next
  case (Inr ps)
  with main_partitions_nonpos_quiet [OF assms, of fs m c t ps] show ?thesis
    by (simp add: main_topic_Inr)
qed

lemma main_topics_nonpos_quiet:
  assumes "lvl \<le> 0"
  shows "Log FatalLevel fs (''topics '' @ m) \<notin> set (fst (main_topics c lvl ts))"
proof (induction ts)
  case Nil
  show ?case by simp
next
  case (Cons t ts)
  note one = main_topic_nonpos_quiet [OF assms, of fs m c t]
  from main_topic_status [of c lvl t] show ?case
  proof
    assume "snd (main_topic c lvl t) = None"
    with Cons one show ?thesis by (simp add: main_topics_Cons_pass)
  next
    assume "snd (main_topic c lvl t) = Some 1"
    with one show ?thesis by (simp add: main_topics_Cons_stop)
  qed
qed

lemma main_topicsList_quiet:
  "Log FatalLevel fs (''topics '' @ m) \<notin> set (fst (main_topicsList c requested))"
  by (simp add: main_topicsList_def split: sum.splits)

lemma main_nonpos_quiet:
  assumes "replicaLevel fl \<le> 0"
  shows "Log FatalLevel fs (''topics '' @ m) \<notin> set (fst (main NewClient fl))"
proof (cases "NewClient (Split (broker fl) CHR '','')")
  case (Inl e)
  then show ?thesis by (simp add: main_def)
next
  case (Inr c)
  show ?thesis
  proof (cases "main_topicsList c (Split (topics fl) CHR '','')")
    case (Pair evs r)
    with main_topicsList_quiet [of fs m c "Split (topics fl) CHR '',''"]
    have evs: "Log FatalLevel fs (''topics '' @ m) \<notin> set evs" by simp
    show ?thesis
    proof (cases r)
      case (Inl code)
      with Inr Pair evs show ?thesis by (simp add: main_def)
    next
      case resolved: (Inr ts)
      obtain evs' r' where loop: "main_topics c (replicaLevel fl) ts = (evs', r')"
        by (cases "main_topics c (replicaLevel fl) ts")
      with main_topics_nonpos_quiet [OF assms, of fs m c ts]
      have "Log FatalLevel fs (''topics '' @ m) \<notin> set evs'" by simp
      with Inr Pair resolved loop evs show ?thesis
        by (cases r') (simp_all add: main_def)
    qed
  qed
qed

lemma main_nonpos:
  assumes "replicaLevel fl \<le> 0"
  shows "main NewClient fl = main NewClient (fl\<lparr>replicaLevel := 0\<rparr>)"
proof (cases "NewClient (Split (broker fl) CHR '','')")
  case (Inl e)
  then show ?thesis by (simp add: main_def main_logLevel_def)
next
  case (Inr c)
  show ?thesis
  proof (cases "main_topicsList c (Split (topics fl) CHR '','')")
    case (Pair evs r)
    show ?thesis
    proof (cases r)
      case (Inl code)
      with Inr Pair show ?thesis by (simp add: main_def main_logLevel_def)
    next
      case resolved: (Inr ts)
      have "main_topics c (replicaLevel fl) ts = main_topics c 0 ts"
        using assms by (rule main_topics_nonpos)
      with Inr Pair resolved show ?thesis by (simp add: main_def main_logLevel_def)
    qed
  qed
qed

text \<open>
  C10. A \<open>replicaLevel\<close> of zero or less, negative values included, never compares the
  number of replicas: the run is the run with \<open>replicaLevel = 0\<close>, event for event and
  with the same exit status, and no run ends with the fatal line "not fully replicated".
\<close>

theorem nonpositive_level_as_zero:
  assumes "lvl \<le> 0"
  shows "main NewClient (fl\<lparr>replicaLevel := lvl\<rparr>) = main NewClient (fl\<lparr>replicaLevel := 0\<rparr>) \<and>
         (\<forall>t p. Log FatalLevel [(''topic'', VStr t), (''partition'', VInt p)]
                   (''topics '' @ t @ '':'' @ itoa p @ '' is not fully replicated'')
                 \<notin> set (fst (main NewClient (fl\<lparr>replicaLevel := lvl\<rparr>))))"
proof
  from assms have neg: "replicaLevel (fl\<lparr>replicaLevel := lvl\<rparr>) \<le> 0" by simp
  from main_nonpos [OF neg, of NewClient]
  show "main NewClient (fl\<lparr>replicaLevel := lvl\<rparr>) = main NewClient (fl\<lparr>replicaLevel := 0\<rparr>)"
    by simp
  show "\<forall>t p. Log FatalLevel [(''topic'', VStr t), (''partition'', VInt p)]
                (''topics '' @ t @ '':'' @ itoa p @ '' is not fully replicated'')
              \<notin> set (fst (main NewClient (fl\<lparr>replicaLevel := lvl\<rparr>)))"
  proof (intro allI)
    fix t p
    from main_nonpos_quiet [OF neg, of "[(''topic'', VStr t), (''partition'', VInt p)]"
        "t @ '':'' @ itoa p @ '' is not fully replicated''" NewClient]
    show "Log FatalLevel [(''topic'', VStr t), (''partition'', VInt p)]
                (''topics '' @ t @ '':'' @ itoa p @ '' is not fully replicated'')
              \<notin> set (fst (main NewClient (fl\<lparr>replicaLevel := lvl\<rparr>)))" .
  qed
qed

theorem nonpositive_level_as_zero_witness:
  "main (\<lambda>bs. Inr orders_client) ((orders_flags 3)\<lparr>replicaLevel := - 1\<rparr>) =
     main (\<lambda>bs. Inr orders_client) ((orders_flags 3)\<lparr>replicaLevel := 0\<rparr>) \<and>
   Log FatalLevel [(''topic'', VStr ''orders''), (''partition'', VInt 1)]
     ''topics orders:1 is not fully replicated''
     \<notin> set (fst (main (\<lambda>bs. Inr orders_client) ((orders_flags 3)\<lparr>replicaLevel := - 1\<rparr>)))"
proof -
  have neg: "(- 1 :: int) \<le> 0" by simp
  from nonpositive_level_as_zero [OF neg, of "\<lambda>bs. Inr orders_client" "orders_flags 3"]
  have "main (\<lambda>bs. Inr orders_client) ((orders_flags 3)\<lparr>replicaLevel := - 1\<rparr>) =
          main (\<lambda>bs. Inr orders_client) ((orders_flags 3)\<lparr>replicaLevel := 0\<rparr>)"
    and "Log FatalLevel [(''topic'', VStr ''orders''), (''partition'', VInt 1)]
           (''topics '' @ ''orders'' @ '':'' @ itoa 1 @ '' is not fully replicated'')
         \<notin> set (fst (main (\<lambda>bs. Inr orders_client) ((orders_flags 3)\<lparr>replicaLevel := - 1\<rparr>)))"
    by blast+
  then show ?thesis by (simp add: itoa_small)
qed

subsection \<open>The shape of a run\<close>

lemma main_unconnected:
  assumes "NewClient (Split (broker fl) CHR '','') = Inl e"
  shows "main NewClient fl =
           ([SetLevel (main_logLevel fl),
             Log InfoLevel [(''version'', VStr version), (''brokers'', VStr (broker fl))]
               ''starting app'',
             Log FatalLevel [] (''Failed to start sarama client: '' @ e)],
            1)"
  using assms by (simp add: main_def)

lemma main_unresolved:
  assumes "NewClient (Split (broker fl) CHR '','') = Inr c"
    and "main_topicsList c (Split (topics fl) CHR '','') = (evs, Inl code)"
  shows "main NewClient fl =
           ([SetLevel (main_logLevel fl),
             Log InfoLevel [(''version'', VStr version), (''brokers'', VStr (broker fl))]
               ''starting app''] @ evs,
            code)"
  using assms by (simp add: main_def)

lemma main_connected:
  assumes "NewClient (Split (broker fl) CHR '','') = Inr c"
    and "main_topicsList c (Split (topics fl) CHR '','') = (evs, Inr ts)"
  shows "main NewClient fl =
           ([SetLevel (main_logLevel fl),
             Log InfoLevel [(''version'', VStr version), (''brokers'', VStr (broker fl))]
               ''starting app''] @ evs @
            [Log DebugLevel [(''topics'', VStrs ts), (''len'', VInt (int (length ts)))]
               ''topic list generated''] @
            fst (main_topics c (replicaLevel fl) ts) @
            (if snd (main_topics c (replicaLevel fl) ts) = None then [Close] else []),
            (case snd (main_topics c (replicaLevel fl) ts) of None \<Rightarrow> 0 | Some code \<Rightarrow> code))"
proof (cases "main_topics c (replicaLevel fl) ts")
  case (Pair evs' r)
  with assms show ?thesis by (cases r) (simp_all add: main_def)
qed

lemma main_topicsList_requested:
  "requested \<noteq> [''''] \<Longrightarrow> main_topicsList c requested = ([], Inr requested)"
proof -
  assume "requested \<noteq> ['''']"
  then have "\<not> (length requested = 1 \<and> requested ! 0 = '''')"
    by (simp only: main_topicsList_sentinel) simp
  then show ?thesis unfolding main_topicsList_def by (rule if_not_P)
qed

lemma main_topicsList_all:
  "main_topicsList c [''''] =
     (case Topics c of
        Inl e \<Rightarrow>
          ([QueryTopics, Log FatalLevel [(''err'', VErr e)] ''Error Listing Topics''], Inl 1)
      | Inr ts \<Rightarrow> ([QueryTopics], Inr ts))"
  by (simp add: main_topicsList_def)

subsection \<open>The run and the specification's verdict\<close>

lemma spec_partitions_Healthy_iff:
  "spec_partitions c (nat lvl) t ps = Healthy \<longleftrightarrow> snd (main_partitions c lvl t ps) = None"
proof (induction ps)
  case Nil
  show ?case by simp
next
  case (Cons p ps)
  show ?case
  proof (cases "Replicas c t p")
    case (Inl e)
    then have "snd (main_partition c lvl t p) = Some 1" by (simp add: main_partition_def)
    with Inl show ?thesis by (simp add: main_partitions_Cons_stop)
  next
    case (Inr R)
    show ?thesis
    proof (cases "0 < lvl \<and> int (length R) \<noteq> lvl")
      case True
      with Inr have "snd (main_partition c lvl t p) = Some 1"
        by (simp add: main_partition_def)
      moreover from True have "nat lvl \<noteq> 0" and "length R \<noteq> nat lvl" by auto
      ultimately show ?thesis using Inr by (simp add: main_partitions_Cons_stop)
    next
      case False
      with Inr have "snd (main_partition c lvl t p) = None"
        by (auto simp add: main_partition_def)
      moreover from False have "nat lvl = 0 \<or> length R = nat lvl" by auto
      ultimately show ?thesis using Inr Cons by (auto simp add: main_partitions_Cons_pass)
    qed
  qed
qed

lemma spec_partitions_Unhealthy:
  assumes "spec_partitions c (nat lvl) t ps = Unhealthy t' p e a"
  shows "t' = t \<and> snd (main_partitions c lvl t ps) = Some 1 \<and>
         fst (main_partitions c lvl t ps) \<noteq> [] \<and>
         last (fst (main_partitions c lvl t ps)) =
           Log FatalLevel [(''topic'', VStr t), (''partition'', VInt p)]
             (''topics '' @ t @ '':'' @ itoa p @ '' is not fully replicated'')"
  using assms
proof (induction ps)
  case Nil
  then show ?case by simp
next
  case (Cons q ps)
  show ?case
  proof (cases "Replicas c t q")
    case (Inl err)
    with Cons.prems show ?thesis by simp
  next
    case (Inr R)
    show ?thesis
    proof (cases "0 < lvl \<and> int (length R) \<noteq> lvl")
      case True
      then have "nat lvl \<noteq> 0" and "length R \<noteq> nat lvl" by auto
      with Cons.prems Inr have same: "t' = t" "p = q" by simp_all
      from True Inr have stop: "main_partition c lvl t q =
          ([QueryReplicas t q,
            Log DebugLevel []
              (Sprint [VStr ''found topic'', VStr ''topic'', VStr t,
                       VStr ''partition'', VInt q, VStr ''replica'', VInts R]),
            Log FatalLevel [(''topic'', VStr t), (''partition'', VInt q)]
              (''topics '' @ t @ '':'' @ itoa q @ '' is not fully replicated'')],
           Some 1)"
        by (simp add: main_partition_def)
      then have "snd (main_partition c lvl t q) = Some 1" by simp
      from main_partitions_Cons_stop [OF this, of ps] stop same show ?thesis by simp
    next
      case False
      with Inr have pass: "snd (main_partition c lvl t q) = None"
        by (auto simp add: main_partition_def)
      from False have "nat lvl = 0 \<or> length R = nat lvl" by auto
      with Cons.prems Inr have "spec_partitions c (nat lvl) t ps = Unhealthy t' p e a"
        by (auto split: if_splits)
      from Cons.IH [OF this] main_partitions_Cons_pass [OF pass, of ps]
      show ?thesis by simp
    qed
  qed
qed

lemma spec_evaluate_Healthy_iff:
  "spec_evaluate c (nat lvl) ts = Healthy \<longleftrightarrow> snd (main_topics c lvl ts) = None"
proof (induction ts)
  case Nil
  show ?case by simp
next
  case (Cons t ts)
  show ?case
  proof (cases "Partitions c t")
    case (Inl e)
    then have "snd (main_topic c lvl t) = Some 1" by (simp add: main_topic_Inl)
    with Inl show ?thesis by (simp add: main_topics_Cons_stop)
  next
    case (Inr ps)
    show ?thesis
    proof (cases "spec_partitions c (nat lvl) t ps = Healthy")
      case True
      then have "snd (main_partitions c lvl t ps) = None"
        by (simp only: spec_partitions_Healthy_iff)
      with Inr have "snd (main_topic c lvl t) = None" by (simp add: main_topic_Inr)
      with True Inr Cons show ?thesis by (simp add: main_topics_Cons_pass)
    next
      case False
      then have "snd (main_partitions c lvl t ps) \<noteq> None"
        by (simp only: spec_partitions_Healthy_iff) simp
      with main_partitions_status [of c lvl t ps]
      have "snd (main_partitions c lvl t ps) = Some 1" by blast
      with Inr have "snd (main_topic c lvl t) = Some 1" by (simp add: main_topic_Inr)
      with False Inr show ?thesis
        by (cases "spec_partitions c (nat lvl) t ps") (simp_all add: main_topics_Cons_stop)
    qed
  qed
qed

lemma spec_evaluate_Unhealthy:
  assumes "spec_evaluate c (nat lvl) ts = Unhealthy t p e a"
  shows "snd (main_topics c lvl ts) = Some 1 \<and>
         fst (main_topics c lvl ts) \<noteq> [] \<and>
         last (fst (main_topics c lvl ts)) =
           Log FatalLevel [(''topic'', VStr t), (''partition'', VInt p)]
             (''topics '' @ t @ '':'' @ itoa p @ '' is not fully replicated'')"
  using assms
proof (induction ts)
  case Nil
  then show ?case by simp
next
  case (Cons u ts)
  show ?case
  proof (cases "Partitions c u")
    case (Inl err)
    with Cons.prems show ?thesis by simp
  next
    case (Inr ps)
    show ?thesis
    proof (cases "spec_partitions c (nat lvl) u ps")
      case Healthy
      then have "snd (main_partitions c lvl u ps) = None"
        by (simp only: spec_partitions_Healthy_iff)
      with Inr have pass: "snd (main_topic c lvl u) = None" by (simp add: main_topic_Inr)
      from Cons.prems Inr Healthy have "spec_evaluate c (nat lvl) ts = Unhealthy t p e a"
        by simp
      from Cons.IH [OF this] main_topics_Cons_pass [OF pass, of ts] show ?thesis by simp
    next
      case (Unhealthy t' p' e' a')
      with Cons.prems Inr have same: "t' = t" "p' = p" by simp_all
      from spec_partitions_Unhealthy [OF Unhealthy] same
      have loop: "u = t" "snd (main_partitions c lvl u ps) = Some 1"
        "fst (main_partitions c lvl u ps) \<noteq> []"
        "last (fst (main_partitions c lvl u ps)) =
           Log FatalLevel [(''topic'', VStr t), (''partition'', VInt p)]
             (''topics '' @ t @ '':'' @ itoa p @ '' is not fully replicated'')"
        by simp_all
      from loop(2) Inr have "snd (main_topic c lvl u) = Some 1" by (simp add: main_topic_Inr)
      from main_topics_Cons_stop [OF this, of ts] loop(3,4) Inr show ?thesis
        by (simp add: main_topic_Inr)
    next
      case (EvaluationError x)
      with Cons.prems Inr show ?thesis by simp
    qed
  qed
qed

text \<open>
  C7. Once the client is connected, the exit status of the run is 0 exactly when the
  specification's verdict for it is \<open>Healthy\<close>, and 1 when the verdict is \<open>Unhealthy\<close>
  or \<open>EvaluationError\<close>. The verdict is taken at the configured level, a level below
  zero counting as zero. A run whose connection fails exits with status 1.
\<close>

theorem exit_status_refines_verdict:
  "(\<forall>c. NewClient (Split (broker fl) CHR '','') = Inr c \<longrightarrow>
      snd (main NewClient fl) =
        (case spec_run c (nat (replicaLevel fl)) (Split (topics fl) CHR '','') of
           Healthy \<Rightarrow> 0
         | Unhealthy t p expected actual \<Rightarrow> 1
         | EvaluationError cause \<Rightarrow> 1)) \<and>
   (\<forall>e. NewClient (Split (broker fl) CHR '','') = Inl e \<longrightarrow> snd (main NewClient fl) = 1)"
proof (intro conjI allI impI)
  fix e assume "NewClient (Split (broker fl) CHR '','') = Inl e"
  then show "snd (main NewClient fl) = 1" by (simp add: main_unconnected)
next
  fix c assume conn: "NewClient (Split (broker fl) CHR '','') = Inr c"
  let ?req = "Split (topics fl) CHR '',''"
  let ?lvl = "replicaLevel fl"
  have loop: "\<And>evs ts. main_topicsList c ?req = (evs, Inr ts) \<Longrightarrow>
      snd (main NewClient fl) =
        (case spec_evaluate c (nat ?lvl) ts of
           Healthy \<Rightarrow> 0 | Unhealthy t p expected actual \<Rightarrow> 1 | EvaluationError cause \<Rightarrow> 1)"
  proof -
    fix evs ts assume res: "main_topicsList c ?req = (evs, Inr ts)"
    show "snd (main NewClient fl) =
        (case spec_evaluate c (nat ?lvl) ts of
           Healthy \<Rightarrow> 0 | Unhealthy t p expected actual \<Rightarrow> 1 | EvaluationError cause \<Rightarrow> 1)"
    proof (cases "spec_evaluate c (nat ?lvl) ts = Healthy")
      case True
      then have "snd (main_topics c ?lvl ts) = None" by (simp only: spec_evaluate_Healthy_iff)
      with True show ?thesis by (simp add: main_connected [where NewClient = NewClient and fl = fl, OF conn res])
    next
      case False
      then have "snd (main_topics c ?lvl ts) \<noteq> None"
        by (simp only: spec_evaluate_Healthy_iff) simp
      with main_topics_status [of c ?lvl ts] have "snd (main_topics c ?lvl ts) = Some 1"
        by blast
      with False show ?thesis
        by (cases "spec_evaluate c (nat ?lvl) ts") (simp_all add: main_connected [where NewClient = NewClient and fl = fl, OF conn res])
    qed
  qed
  show "snd (main NewClient fl) =
      (case spec_run c (nat ?lvl) ?req of
         Healthy \<Rightarrow> 0 | Unhealthy t p expected actual \<Rightarrow> 1 | EvaluationError cause \<Rightarrow> 1)"
  proof (cases "?req = ['''']")
    case False
    then have "main_topicsList c ?req = ([], Inr ?req)" by (rule main_topicsList_requested)
    from loop [OF this] False show ?thesis by (simp add: spec_run_def spec_resolve_def)
  next
    case True
    show ?thesis
    proof (cases "Topics c")
      case (Inl e)
      with True have "main_topicsList c ?req =
          ([QueryTopics, Log FatalLevel [(''err'', VErr e)] ''Error Listing Topics''], Inl 1)"
        by (simp add: main_topicsList_all)
      from main_unresolved [where NewClient = NewClient and fl = fl, OF conn this] True Inl show ?thesis
        by (simp add: spec_run_def spec_resolve_def)
    next
      case (Inr ts)
      with True have "main_topicsList c ?req = ([QueryTopics], Inr ts)"
        by (simp add: main_topicsList_all)
      from loop [OF this] True Inr show ?thesis by (simp add: spec_run_def spec_resolve_def)
    qed
  qed
qed

theorem exit_status_refines_verdict_witness:
  "snd (main (connected orders_client) (orders_flags 3)) = 1 \<and>
   spec_run orders_client 3 [''orders''] = Unhealthy ''orders'' 1 3 2 \<and>
   snd (main (connected orders_client) (default_flags\<lparr>replicaLevel := 1\<rparr>)) = 0 \<and>
   spec_run orders_client 1 [''''] = Healthy \<and>
   snd (main (\<lambda>bs. Inl ''connection refused'') default_flags) = 1"
proof -
  have bad: "spec_run orders_client (nat (replicaLevel (orders_flags 3)))
      (Split (topics (orders_flags 3)) CHR '','') = Unhealthy ''orders'' 1 3 2"
    by code_simp
  have good: "spec_run orders_client (nat (replicaLevel (default_flags\<lparr>replicaLevel := 1\<rparr>)))
      (Split (topics (default_flags\<lparr>replicaLevel := 1\<rparr>)) CHR '','') = Healthy"
    by code_simp
  have v1: "spec_run orders_client 3 [''orders''] = Unhealthy ''orders'' 1 3 2" by code_simp
  have v2: "spec_run orders_client 1 [''''] = Healthy" by code_simp
  from exit_status_refines_verdict [of "connected orders_client" "orders_flags 3"] bad
  have s1: "snd (main (connected orders_client) (orders_flags 3)) = 1"
    by (simp add: connected_def)
  from exit_status_refines_verdict
    [of "connected orders_client" "default_flags\<lparr>replicaLevel := 1\<rparr>"] good
  have s2: "snd (main (connected orders_client) (default_flags\<lparr>replicaLevel := 1\<rparr>)) = 0"
    by (simp add: connected_def)
  from exit_status_refines_verdict [of "\<lambda>bs. Inl ''connection refused''" default_flags]
  have s3: "snd (main (\<lambda>bs. Inl ''connection refused'') default_flags) = 1"
    by simp
  from s1 v1 s2 v2 s3 show ?thesis by simp
qed

subsection \<open>What the fatal lines say\<close>

lemma written_append: "written l (xs @ ys) = written l xs @ written l ys"
  by (induction l xs rule: written.induct) simp_all

lemma written_last_fatal:
  assumes "xs \<noteq> []" and "last xs = Log FatalLevel fs m" and "l \<noteq> PanicLevel"
  shows "last (written l xs) = Log FatalLevel fs m"
proof -
  from assms(1,2) have "xs = butlast xs @ [Log FatalLevel fs m]"
    by (metis append_butlast_last_id)
  then have "written l xs = written l (butlast xs) @ written l [Log FatalLevel fs m]"
    by (metis written_append)
  moreover from assms(3) have "written l [Log FatalLevel fs m] = [Log FatalLevel fs m]"
    by (cases l) simp_all
  ultimately show ?thesis by simp
qed

lemma main_topicsList_spec:
  assumes "spec_resolve c requested = Inr ts"
  shows "\<exists>evs. main_topicsList c requested = (evs, Inr ts)"
proof (cases "requested = ['''']")
  case True
  with assms show ?thesis by (simp add: spec_resolve_def main_topicsList_all)
next
  case False
  with assms main_topicsList_requested [OF False, of c] show ?thesis
    by (simp add: spec_resolve_def)
qed

text \<open>
  C5, as the program has it. A run whose verdict is \<open>Unhealthy\<close> for topic \<open>t\<close> and
  partition \<open>p\<close> exits with status 1, and the last thing it does is the fatal log call
  with the fields \<open>topic\<close> and \<open>partition\<close> and the message
  "topics t:p is not fully replicated"; that line is the last one written unless the
  logger's level is panic. The line is the same whatever the expected and the actual
  number of replicas are: it carries neither.
\<close>

theorem unhealthy_report_names_topic_and_partition:
  assumes "NewClient (Split (broker fl) CHR '','') = Inr c"
    and "spec_run c (nat (replicaLevel fl)) (Split (topics fl) CHR '','') =
           Unhealthy t p expected actual"
  shows "snd (main NewClient fl) = 1 \<and>
         last (fst (main NewClient fl)) =
           Log FatalLevel [(''topic'', VStr t), (''partition'', VInt p)]
             (''topics '' @ t @ '':'' @ itoa p @ '' is not fully replicated'') \<and>
         (main_logLevel fl \<noteq> PanicLevel \<longrightarrow>
            last (written (main_logLevel fl) (fst (main NewClient fl))) =
              Log FatalLevel [(''topic'', VStr t), (''partition'', VInt p)]
                (''topics '' @ t @ '':'' @ itoa p @ '' is not fully replicated''))"
proof -
  let ?req = "Split (topics fl) CHR '',''"
  let ?lvl = "replicaLevel fl"
  let ?report = "Log FatalLevel [(''topic'', VStr t), (''partition'', VInt p)]
             (''topics '' @ t @ '':'' @ itoa p @ '' is not fully replicated'')"
  from assms(2) obtain ts where res: "spec_resolve c ?req = Inr ts"
    and ev: "spec_evaluate c (nat ?lvl) ts = Unhealthy t p expected actual"
    by (cases "spec_resolve c ?req") (simp_all add: spec_run_def)
  from main_topicsList_spec [OF res] obtain evs
    where lst: "main_topicsList c ?req = (evs, Inr ts)" by blast
  from spec_evaluate_Unhealthy [OF ev]
  have loop: "snd (main_topics c ?lvl ts) = Some 1" "fst (main_topics c ?lvl ts) \<noteq> []"
    "last (fst (main_topics c ?lvl ts)) = ?report"
    by simp_all
  note run = main_connected [where NewClient = NewClient and fl = fl, OF assms(1) lst]
  from run loop have status: "snd (main NewClient fl) = 1" by simp
  from run loop have nonempty: "fst (main NewClient fl) \<noteq> []" by simp
  from run loop have final: "last (fst (main NewClient fl)) = ?report" by simp
  from written_last_fatal [OF nonempty final]
  have "main_logLevel fl \<noteq> PanicLevel \<longrightarrow>
      last (written (main_logLevel fl) (fst (main NewClient fl))) = ?report"
    by blast
  with status final show ?thesis by blast
qed

theorem unhealthy_report_names_topic_and_partition_witness:
  "snd (main (connected orders_client) (orders_flags 3)) = 1 \<and>
   last (fst (main (connected orders_client) (orders_flags 3))) =
     Log FatalLevel [(''topic'', VStr ''orders''), (''partition'', VInt 1)]
       ''topics orders:1 is not fully replicated'' \<and>
   last (written WarnLevel (fst (main (connected orders_client) (orders_flags 3)))) =
     Log FatalLevel [(''topic'', VStr ''orders''), (''partition'', VInt 1)]
       ''topics orders:1 is not fully replicated''"
proof -
  have conn: "connected orders_client (Split (broker (orders_flags 3)) CHR '','') = Inr orders_client"
    by (simp add: connected_def)
  have bad: "spec_run orders_client (nat (replicaLevel (orders_flags 3)))
      (Split (topics (orders_flags 3)) CHR '','') = Unhealthy ''orders'' 1 3 2"
    by code_simp
  have lvl: "main_logLevel (orders_flags 3) = WarnLevel" by code_simp
  from unhealthy_report_names_topic_and_partition
    [where NewClient = "connected orders_client" and fl = "orders_flags 3", OF conn bad] lvl
  show ?thesis by (simp add: itoa_small)
qed

text \<open>
  The claim C5 as stated fails: two runs that differ in the expected number of replicas
  (3 and 5) and in the actual one (2 and 4) end with the same failure report, and write
  the same lines at the default level.
\<close>

theorem unhealthy_report_counts_counterexample:
  "spec_run orders_client 3 [''orders''] = Unhealthy ''orders'' 1 3 2 \<and>
   spec_run wide_client 5 [''orders''] = Unhealthy ''orders'' 1 5 4 \<and>
   last (fst (main (connected orders_client) (orders_flags 3))) =
     Log FatalLevel [(''topic'', VStr ''orders''), (''partition'', VInt 1)]
       ''topics orders:1 is not fully replicated'' \<and>
   last (fst (main (connected wide_client) (orders_flags 5))) =
     Log FatalLevel [(''topic'', VStr ''orders''), (''partition'', VInt 1)]
       ''topics orders:1 is not fully replicated'' \<and>
   written WarnLevel (fst (main (connected orders_client) (orders_flags 3))) =
     written WarnLevel (fst (main (connected wide_client) (orders_flags 5)))"
proof -
  have "spec_run orders_client 3 [''orders''] = Unhealthy ''orders'' 1 3 2"
    by code_simp
  moreover have "spec_run wide_client 5 [''orders''] = Unhealthy ''orders'' 1 5 4"
    by code_simp
  moreover have "last (fst (main (connected orders_client) (orders_flags 3))) =
     Log FatalLevel [(''topic'', VStr ''orders''), (''partition'', VInt 1)]
       ''topics orders:1 is not fully replicated''"
    by code_simp
  moreover have "last (fst (main (connected wide_client) (orders_flags 5))) =
     Log FatalLevel [(''topic'', VStr ''orders''), (''partition'', VInt 1)]
       ''topics orders:1 is not fully replicated''"
    by code_simp
  moreover have "written WarnLevel (fst (main (connected orders_client) (orders_flags 3))) =
     written WarnLevel (fst (main (connected wide_client) (orders_flags 5)))"
    by code_simp
  ultimately show ?thesis by blast
qed

lemma replicas_failure_stops:
  assumes "Replicas c t p = Inl e"
  shows "main_partitions c lvl t (p # ps) =
           ([QueryReplicas t p,
             Log FatalLevel [(''topic'', VStr t), (''partition'', VInt p)]
               ''Error listing partitions''],
            Some 1)"
proof -
  from assms have stop: "main_partition c lvl t p =
      ([QueryReplicas t p,
        Log FatalLevel [(''topic'', VStr t), (''partition'', VInt p)]
          ''Error listing partitions''],
       Some 1)"
    by (simp add: main_partition_def)
  then have "snd (main_partition c lvl t p) = Some 1" by simp
  from main_partitions_Cons_stop [OF this, of ps] stop show ?thesis by simp
qed

text \<open>
  C6. When the replica query for a partition fails, the run stops there with exit status
  1, and its fatal line names the topic and the partition. The error itself is dropped:
  the line has no \<open>err\<close> field, unlike the lines for a failed topic or partition
  listing, so two runs failing with different errors are the same run, event for event.
\<close>

theorem replicas_error_dropped:
  "main (connected (no_replicas_client ''EOF'')) (orders_flags 2) =
     main (connected (no_replicas_client ''i/o timeout'')) (orders_flags 2) \<and>
   snd (main (connected (no_replicas_client ''EOF'')) (orders_flags 2)) = 1 \<and>
   last (fst (main (connected (no_replicas_client ''EOF'')) (orders_flags 2))) =
     Log FatalLevel [(''topic'', VStr ''orders''), (''partition'', VInt 0)]
       ''Error listing partitions'' \<and>
   spec_run (no_replicas_client ''EOF'') 2 [''orders''] =
     EvaluationError (MetadataError ''EOF'' (Some ''orders'') (Some 0))"
proof -
  have "main (connected (no_replicas_client ''EOF'')) (orders_flags 2) =
     main (connected (no_replicas_client ''i/o timeout'')) (orders_flags 2)"
    by code_simp
  moreover have "snd (main (connected (no_replicas_client ''EOF'')) (orders_flags 2)) = 1"
    by code_simp
  moreover have "last (fst (main (connected (no_replicas_client ''EOF'')) (orders_flags 2))) =
     Log FatalLevel [(''topic'', VStr ''orders''), (''partition'', VInt 0)]
       ''Error listing partitions''"
    by code_simp
  moreover have "spec_run (no_replicas_client ''EOF'') 2 [''orders''] =
     EvaluationError (MetadataError ''EOF'' (Some ''orders'') (Some 0))"
    by code_simp
  ultimately show ?thesis by blast
qed

subsection \<open>The deferred close\<close>

lemma main_partition_open: "Close \<notin> set (fst (main_partition c lvl t p))"
  by (simp add: main_partition_def Let_def split: sum.splits)

lemma main_partitions_open: "Close \<notin> set (fst (main_partitions c lvl t ps))"
proof (induction ps)
  case Nil
  show ?case by simp
next
  case (Cons p ps)
  note one = main_partition_open [of c lvl t p]
  from main_partition_status [of c lvl t p] show ?case
  proof
    assume "snd (main_partition c lvl t p) = None"
    with Cons one show ?thesis by (simp add: main_partitions_Cons_pass)
  next
    assume "snd (main_partition c lvl t p) = Some 1"
    with one show ?thesis by (simp add: main_partitions_Cons_stop)
  qed
qed

lemma main_topic_open: "Close \<notin> set (fst (main_topic c lvl t))"
proof (cases "Partitions c t")
  case (Inl e)
  then show ?thesis by (simp add: main_topic_Inl)
next
  case (Inr ps)
  with main_partitions_open [of c lvl t ps] show ?thesis by (simp add: main_topic_Inr)
qed

lemma main_topics_open: "Close \<notin> set (fst (main_topics c lvl ts))"
proof (induction ts)
  case Nil
  show ?case by simp
next
  case (Cons t ts)
  note one = main_topic_open [of c lvl t]
  from main_topic_status [of c lvl t] show ?case
  proof
    assume "snd (main_topic c lvl t) = None"
    with Cons one show ?thesis by (simp add: main_topics_Cons_pass)
  next
    assume "snd (main_topic c lvl t) = Some 1"
    with one show ?thesis by (simp add: main_topics_Cons_stop)
  qed
qed

lemma main_topicsList_open: "Close \<notin> set (fst (main_topicsList c requested))"
  by (simp add: main_topicsList_def split: sum.splits)

text \<open>
  The deferred \<^verbatim>\<open>client.Close()\<close> runs once in a run that returns from \<open>main\<close>,
  with status 0, and not at all in a run that leaves through \<^verbatim>\<open>Fatal\<close>.
\<close>

lemma close_runs_iff_exit_zero:
  "count_list (fst (main NewClient fl)) Close = (if snd (main NewClient fl) = 0 then 1 else 0)"
proof (cases "NewClient (Split (broker fl) CHR '','')")
  case (Inl e)
  then show ?thesis by (simp add: main_unconnected)
next
  case (Inr c)
  show ?thesis
  proof (cases "main_topicsList c (Split (topics fl) CHR '','')")
    case (Pair evs r)
    with main_topicsList_open [of c "Split (topics fl) CHR '',''"]
    have evs: "count_list evs Close = 0" by (simp add: count_list_0_iff)
    have loop: "count_list (fst (main_topics c (replicaLevel fl) ts)) Close = 0" for ts
      using main_topics_open [of c "replicaLevel fl" ts] by (simp add: count_list_0_iff)
    show ?thesis
    proof (cases r)
      case (Inl code)
      with Pair have lst: "main_topicsList c (Split (topics fl) CHR '','') = (evs, Inl code)"
        by simp
      then have "code = 1" by (auto simp add: main_topicsList_def split: if_splits sum.splits)
      with evs show ?thesis
        by (simp add: main_unresolved [where NewClient = NewClient and fl = fl, OF Inr lst])
    next
      case resolved: (Inr ts)
      with Pair have lst: "main_topicsList c (Split (topics fl) CHR '','') = (evs, Inr ts)"
        by simp
      note run = main_connected [where NewClient = NewClient and fl = fl, OF Inr lst]
      from main_topics_status [of c "replicaLevel fl" ts] show ?thesis
      proof
        assume "snd (main_topics c (replicaLevel fl) ts) = None"
        with evs loop [of ts] show ?thesis by (simp add: run)
      next
        assume "snd (main_topics c (replicaLevel fl) ts) = Some 1"
        with evs loop [of ts] show ?thesis by (simp add: run)
      qed
    qed
  qed
qed

text \<open>
  C8. The claim holds for the runs that return from \<open>main\<close> and fails for the others:
  in the run of the scenario, which ends with an unhealthy partition, and in a run
  where a replica query fails, the client is connected and never closed, while the healthy
  run closes it once.
\<close>

theorem close_skipped_on_fatal:
  "snd (main (connected orders_client) (orders_flags 3)) = 1 \<and>
   count_list (fst (main (connected orders_client) (orders_flags 3))) Close = 0 \<and>
   snd (main (connected (no_replicas_client ''EOF'')) (orders_flags 2)) = 1 \<and>
   count_list (fst (main (connected (no_replicas_client ''EOF'')) (orders_flags 2))) Close = 0 \<and>
   snd (main (connected orders_client) (default_flags\<lparr>replicaLevel := 1\<rparr>)) = 0 \<and>
   count_list (fst (main (connected orders_client) (default_flags\<lparr>replicaLevel := 1\<rparr>))) Close = 1"
proof -
  have "snd (main (connected orders_client) (orders_flags 3)) = 1"
    by code_simp
  moreover have "count_list (fst (main (connected orders_client) (orders_flags 3))) Close = 0"
    by code_simp
  moreover have "snd (main (connected (no_replicas_client ''EOF'')) (orders_flags 2)) = 1"
    by code_simp
  moreover have
    "count_list (fst (main (connected (no_replicas_client ''EOF'')) (orders_flags 2))) Close = 0"
    by code_simp
  moreover have "snd (main (connected orders_client) (default_flags\<lparr>replicaLevel := 1\<rparr>)) = 0"
    by code_simp
  moreover have
    "count_list (fst (main (connected orders_client) (default_flags\<lparr>replicaLevel := 1\<rparr>))) Close = 1"
    by code_simp
  ultimately show ?thesis by blast
qed

subsection \<open>The log level flag\<close>

text \<open>
  The claim C9 as stated fails: the default value of the flag is not the string
  \<open>warn\<close>.
\<close>

theorem logLevel_default_counterexample: "logLevel default_flags \<noteq> ''warn''"
  by (simp add: default_flags_def)

text \<open>
  C9, as the program has it. The default value of \<^verbatim>\<open>-logLevel\<close> is the string
  \<open>warning\<close>, the name logrus gives its warn level, and it selects that level. The
  names \<open>fatal\<close>, \<open>error\<close>, \<open>warn\<close>, \<open>info\<close> and \<open>debug\<close> are accepted, each
  selecting its level.
\<close>

theorem logLevel_default_and_names:
  "logLevel default_flags = ''warning'' \<and>
   main_logLevel default_flags = WarnLevel \<and>
   ParseLevel ''fatal'' = Some FatalLevel \<and>
   ParseLevel ''error'' = Some ErrorLevel \<and>
   ParseLevel ''warn'' = Some WarnLevel \<and>
   ParseLevel ''info'' = Some InfoLevel \<and>
   ParseLevel ''debug'' = Some DebugLevel"
proof -
  have "logLevel default_flags = ''warning''" by (simp add: default_flags_def)
  moreover have "main_logLevel default_flags = WarnLevel" by code_simp
  moreover have "ParseLevel ''fatal'' = Some FatalLevel" by code_simp
  moreover have "ParseLevel ''error'' = Some ErrorLevel" by code_simp
  moreover have "ParseLevel ''warn'' = Some WarnLevel" by code_simp
  moreover have "ParseLevel ''info'' = Some InfoLevel" by code_simp
  moreover have "ParseLevel ''debug'' = Some DebugLevel" by code_simp
  ultimately show ?thesis by blast
qed

end
